theory Spec2Isabelle
  imports Main
begin

section \<open>Python primitives used by git-auto-commit.py\<close>

text \<open>
  A Python \<open>str\<close> is modelled as a \<open>string\<close>: one \<open>char\<close> per code point, restricted to
  the code points below 256. \<open>len\<close> is \<open>length\<close>. Integers are \<open>int\<close>, counters that only
  grow from zero are \<open>nat\<close>.

  Everything that can raise in the source is a branch of the model: the exceptions are the
  constructors of \<open>py_error\<close> and a fallible function returns \<open>py_error + 'a\<close>.
\<close>

datatype py_error =
    SystemExit int
  | AttributeError
  | KeyError
  | IndexError
  | StopIteration
  | ValueError

subsection \<open>Strings\<close>

text \<open>\<open>p.rfind(c)\<close>: the highest index of \<open>c\<close> in \<open>p\<close>, or \<open>-1\<close>.\<close>

fun rfind :: "string \<Rightarrow> char \<Rightarrow> int" where
  "rfind [] c = - 1"
| "rfind (x # xs) c =
     (let r = rfind xs c in if 0 \<le> r then r + 1 else if x = c then 0 else - 1)"

text \<open>
  Slice bounds: a negative bound counts from the end, and every bound is clipped to
  \<open>0 .. len\<close>.
\<close>

definition slice_bound :: "string \<Rightarrow> int \<Rightarrow> nat" where
  "slice_bound s i = (if i < 0 then nat (int (length s) + i) else min (nat i) (length s))"

text \<open>\<open>s[:i]\<close>, \<open>s[i:]\<close> and \<open>s[i:j]\<close>.\<close>

definition slice_to :: "string \<Rightarrow> int \<Rightarrow> string" where
  "slice_to s i = take (slice_bound s i) s"

definition slice_from :: "string \<Rightarrow> int \<Rightarrow> string" where
  "slice_from s i = drop (slice_bound s i) s"

definition slice :: "string \<Rightarrow> int \<Rightarrow> int \<Rightarrow> string" where
  "slice s i j = take (slice_bound s j - slice_bound s i) (drop (slice_bound s i) s)"




definition lstrip_dots :: "string \<Rightarrow> string" where
  "lstrip_dots s = dropWhile (\<lambda>c. c = CHR ''.'') s"

text \<open>\<open>str(n)\<close> for a non-negative integer, as the f-strings format the file count.\<close>

definition digit_char :: "nat \<Rightarrow> char" where
  "digit_char d = char_of (48 + d)"

fun str_nat :: "nat \<Rightarrow> string" where
  "str_nat n = (if n < 10 then [digit_char n] else str_nat (n div 10) @ [digit_char (n mod 10)])"

declare str_nat.simps [simp del]

text \<open>\<open>s.split('\n')\<close>: always at least one piece.\<close>

fun split_lines :: "string \<Rightarrow> string list" where
  "split_lines [] = [[]]"
| "split_lines (c # cs) =
     (if c = CHR 0x0A then [] # split_lines cs
      else (case split_lines cs of [] \<Rightarrow> [[c]] | l # ls \<Rightarrow> (c # l) # ls))"

subsection \<open>Paths (posixpath)\<close>

text \<open>\<open>os.path.basename(p)\<close>: \<open>i = p.rfind('/') + 1; return p[i:]\<close>.\<close>

definition basename :: "string \<Rightarrow> string" where
  "basename p = (let i = rfind p CHR ''/'' + 1 in slice_from p i)"

text \<open>
  \<open>os.path.splitext(p)\<close>, that is \<open>genericpath._splitext(p, '/', None, '.')\<close>. The
  \<open>while\<close> loop that skips the leading dots of the file name is \<open>skip_leading_dots\<close>; it
  returns \<open>None\<close> when the loop ends without returning, and the function then falls to its
  last line.
\<close>

function skip_leading_dots :: "string \<Rightarrow> int \<Rightarrow> int \<Rightarrow> (string \<times> string) option" where
  "skip_leading_dots p dotIndex filenameIndex =
     (if filenameIndex < dotIndex then
        (if slice p filenameIndex (filenameIndex + 1) \<noteq> ''.''
         then Some (slice_to p dotIndex, slice_from p dotIndex)
         else skip_leading_dots p dotIndex (filenameIndex + 1))
      else None)"
  by pat_completeness auto
termination
  by (relation "measure (\<lambda>(p, dotIndex, filenameIndex). nat (dotIndex - filenameIndex))") auto

declare skip_leading_dots.simps [simp del]

definition splitext :: "string \<Rightarrow> string \<times> string" where
  "splitext p =
     (let sepIndex = rfind p CHR ''/'';
          dotIndex = rfind p CHR ''.''
      in if dotIndex > sepIndex then
           (case skip_leading_dots p dotIndex (sepIndex + 1) of
              Some r \<Rightarrow> r
            | None \<Rightarrow> (p, slice_to p 0))
         else (p, slice_to p 0))"

subsection \<open>Dictionaries\<close>

text \<open>
  A \<open>dict\<close> is an association list in insertion order with distinct keys: \<open>d[k]\<close> raises
  \<open>KeyError\<close> on a missing key, \<open>d[k] = v\<close> keeps the place of a key that is present and
  appends a new one, \<open>len(d)\<close> is the length of the list.
\<close>

definition dict_contains :: "('k \<times> 'v) list \<Rightarrow> 'k \<Rightarrow> bool" where
  "dict_contains d k = (map_of d k \<noteq> None)"

definition dict_getitem :: "('k \<times> 'v) list \<Rightarrow> 'k \<Rightarrow> py_error + 'v" where
  "dict_getitem d k = (case map_of d k of None \<Rightarrow> Inl KeyError | Some v \<Rightarrow> Inr v)"

definition dict_get :: "('k \<times> 'v) list \<Rightarrow> 'k \<Rightarrow> 'v \<Rightarrow> 'v" where
  "dict_get d k dflt = (case map_of d k of None \<Rightarrow> dflt | Some v \<Rightarrow> v)"

fun dict_setitem :: "('k \<times> 'v) list \<Rightarrow> 'k \<Rightarrow> 'v \<Rightarrow> ('k \<times> 'v) list" where
  "dict_setitem [] k v = [(k, v)]"
| "dict_setitem ((k', v') # d) k v =
     (if k' = k then (k, v) # d else (k', v') # dict_setitem d k v)"

text \<open>\<open>max(xs, key=f)\<close>: the first element with the largest key, \<open>ValueError\<close> on an empty list.\<close>

fun py_max :: "('a \<Rightarrow> nat) \<Rightarrow> 'a list \<Rightarrow> py_error + 'a" where
  "py_max f [] = Inl ValueError"
| "py_max f (x # xs) = Inr (foldl (\<lambda>best y. if f best < f y then y else best) x xs)"

section \<open>Change Classifier: \<open>categorize_changes\<close>\<close>

type_synonym staged_file = "string \<times> string"

record category =
  count :: nat
  files :: "string list"

type_synonym categories = "(string \<times> category) list"
type_synonym extensions = "(string \<times> nat) list"

definition initial_categories :: categories where
  "initial_categories =
     [(''A'', \<lparr>count = 0, files = []\<rparr>),
      (''M'', \<lparr>count = 0, files = []\<rparr>),
      (''D'', \<lparr>count = 0, files = []\<rparr>),
      (''R'', \<lparr>count = 0, files = []\<rparr>),
      (''C'', \<lparr>count = 0, files = []\<rparr>)]"

text \<open>
  The first half of the loop body: \<open>if status in categories:\<close> then the count is
  incremented and the path appended.
\<close>

definition categorize_status :: "categories \<Rightarrow> string \<Rightarrow> string \<Rightarrow> py_error + categories" where
  "categorize_status categories status file_path =
     (if dict_contains categories status then
        (case dict_getitem categories status of
           Inl e \<Rightarrow> Inl e
         | Inr c \<Rightarrow>
             Inr (dict_setitem categories status
                    (c\<lparr>count := count c + 1, files := files c @ [file_path]\<rparr>)))
      else Inr categories)"

text \<open>
  The second half: \<open>_, ext = os.path.splitext(file_path); ext = ext.lstrip('.')\<close>, and
  the extension is counted when it is not empty.
\<close>

definition file_extension :: "string \<Rightarrow> string" where
  "file_extension file_path = lstrip_dots (snd (splitext file_path))"

definition categorize_extension :: "extensions \<Rightarrow> string \<Rightarrow> extensions" where
  "categorize_extension extensions file_path =
     (let ext = file_extension file_path
      in if ext \<noteq> [] then dict_setitem extensions ext (dict_get extensions ext 0 + 1)
         else extensions)"

fun categorize_loop ::
  "categories \<Rightarrow> extensions \<Rightarrow> staged_file list \<Rightarrow> py_error + categories \<times> extensions" where
  "categorize_loop categories extensions [] = Inr (categories, extensions)"
| "categorize_loop categories extensions ((status, file_path) # rest) =
     (case categorize_status categories status file_path of
        Inl e \<Rightarrow> Inl e
      | Inr categories' \<Rightarrow>
          categorize_loop categories' (categorize_extension extensions file_path) rest)"

definition categorize_changes :: "staged_file list \<Rightarrow> py_error + categories \<times> extensions" where
  "categorize_changes staged_files = categorize_loop initial_categories [] staged_files"

section \<open>Heuristic Message Synthesizer: \<open>analyze_changes\<close>\<close>

text \<open>\<open>categories[s]['count']\<close>.\<close>

definition category_count :: "categories \<Rightarrow> string \<Rightarrow> py_error + nat" where
  "category_count categories s =
     (case dict_getitem categories s of Inl e \<Rightarrow> Inl e | Inr c \<Rightarrow> Inr (count c))"

text \<open>\<open>sum(c['count'] for s, c in categories.items() if s != k)\<close>.\<close>

definition other_counts :: "categories \<Rightarrow> string \<Rightarrow> nat" where
  "other_counts categories k =
     sum_list (map (\<lambda>(s, c). count c) (filter (\<lambda>(s, c). s \<noteq> k) categories))"

text \<open>\<open>sum(c['count'] for c in categories.values())\<close>.\<close>

definition file_count :: "categories \<Rightarrow> nat" where
  "file_count categories = sum_list (map (\<lambda>(s, c). count c) categories)"

text \<open>The single-file shortcut; \<open>None\<close> when the function goes on to the multi-file part.\<close>

definition single_file_message :: "staged_file list \<Rightarrow> py_error + string option" where
  "single_file_message staged_files =
     (if length staged_files = 1 then
        (case staged_files of
           [] \<Rightarrow> Inl IndexError
         | (status, file_path) # _ \<Rightarrow>
             (let file_name = basename file_path
              in if status = ''A'' then Inr (Some (''Add '' @ file_name))
                 else if status = ''M'' then Inr (Some (''Update '' @ file_name))
                 else if status = ''D'' then Inr (Some (''Delete '' @ file_name))
                 else if status = ''R'' then Inr (Some (''Rename file to '' @ file_name))
                 else Inr None))
      else Inr None)"

text \<open>
  One test of the \<open>if\<close>/\<open>elif\<close> chain:
  \<open>categories[k]['count'] > 0 and categories[k]['count'] >= sum(... if s != k)\<close>.
\<close>

definition dominates :: "categories \<Rightarrow> string \<Rightarrow> py_error + bool" where
  "dominates categories k =
     (case category_count categories k of
        Inl e \<Rightarrow> Inl e
      | Inr n \<Rightarrow> Inr (0 < n \<and> other_counts categories k \<le> n))"

definition primary_action :: "categories \<Rightarrow> py_error + string option" where
  "primary_action categories =
     (case dominates categories ''A'' of
        Inl e \<Rightarrow> Inl e
      | Inr a \<Rightarrow>
          if a then Inr (Some ''Add'')
          else (case dominates categories ''M'' of
                  Inl e \<Rightarrow> Inl e
                | Inr m \<Rightarrow>
                    if m then Inr (Some ''Update'')
                    else (case dominates categories ''D'' of
                            Inl e \<Rightarrow> Inl e
                          | Inr d \<Rightarrow> if d then Inr (Some ''Remove'') else Inr None)))"

text \<open>The chain of \<open>ext in [...]\<close> tests.\<close>

definition scope_of_extension :: "string \<Rightarrow> string option" where
  "scope_of_extension ext =
     (if ext \<in> set [''js'', ''ts''] then Some ''JavaScript''
      else if ext \<in> set [''py''] then Some ''Python''
      else if ext \<in> set [''css'', ''scss''] then Some ''styles''
      else if ext \<in> set [''html''] then Some ''HTML''
      else if ext \<in> set [''md'', ''txt''] then Some ''documentation''
      else if ext \<in> set [''json'', ''yaml'', ''yml'', ''toml''] then Some ''configuration''
      else None)"

text \<open>\<open>if len(extensions) == 1: ext = next(iter(extensions)) ...\<close>.\<close>

definition scope :: "extensions \<Rightarrow> py_error + string option" where
  "scope extensions =
     (if length extensions = 1 then
        (case extensions of
           [] \<Rightarrow> Inl StopIteration
         | (ext, _) # _ \<Rightarrow> Inr (scope_of_extension ext))
      else Inr None)"

definition multi_file_message :: "categories \<Rightarrow> extensions \<Rightarrow> py_error + string" where
  "multi_file_message categories extensions =
     (case primary_action categories of
        Inl e \<Rightarrow> Inl e
      | Inr action \<Rightarrow>
          (case scope extensions of
             Inl e \<Rightarrow> Inl e
           | Inr sc \<Rightarrow>
               (case action of
                  Some a \<Rightarrow>
                    (case sc of
                       Some s \<Rightarrow> Inr (a @ '' '' @ s @ '' files'')
                     | None \<Rightarrow> Inr (a @ '' '' @ str_nat (file_count categories) @ '' files''))
                | None \<Rightarrow> Inr (''Update '' @ str_nat (file_count categories) @ '' files''))))"

text \<open>
  \<open>analyze_changes(repo, staged_files)\<close>; \<open>repo\<close> is not used by the function. The value
  of \<open>most_changed_category\<close> is not used either, but \<open>max\<close> is evaluated.
\<close>

definition analyze_changes :: "staged_file list \<Rightarrow> py_error + string" where
  "analyze_changes staged_files =
     (case categorize_changes staged_files of
        Inl e \<Rightarrow> Inl e
      | Inr (categories, extensions) \<Rightarrow>
          (case py_max (\<lambda>(s, c). count c) categories of
             Inl e \<Rightarrow> Inl e
           | Inr most_changed_category \<Rightarrow>
               (case single_file_message staged_files of
                  Inl e \<Rightarrow> Inl e
                | Inr (Some message) \<Rightarrow> Inr message
                | Inr None \<Rightarrow> multi_file_message categories extensions)))"


section \<open>Change Collector: \<open>get_staged_files\<close>\<close>






section \<open>Remote Synthesizer Adapter and Message Policy Layer\<close>















section \<open>Closed forms used in the statements\<close>

text \<open>
  The paths of the entries of a ChangeSet that carry status \<open>k\<close>, in order, and their
  number. The source computes neither as such: they are the vocabulary in which the
  classifier's result is stated.
\<close>

definition paths_with_status :: "string \<Rightarrow> staged_file list \<Rightarrow> string list" where
  "paths_with_status k staged_files =
     map snd (filter (\<lambda>(status, file_path). status = k) staged_files)"

definition status_count :: "string \<Rightarrow> staged_file list \<Rightarrow> nat" where
  "status_count k staged_files = length (paths_with_status k staged_files)"

definition extended :: "category \<Rightarrow> string list \<Rightarrow> category" where
  "extended c ps = c\<lparr>count := count c + length ps, files := files c @ ps\<rparr>"

definition tally :: "string \<Rightarrow> staged_file list \<Rightarrow> string \<times> category" where
  "tally k staged_files =
     (k, \<lparr>count = status_count k staged_files, files = paths_with_status k staged_files\<rparr>)"

definition tallies :: "staged_file list \<Rightarrow> categories" where
  "tallies staged_files = map (\<lambda>k. tally k staged_files) [''A'', ''M'', ''D'', ''R'', ''C'']"

definition counted_extensions :: "staged_file list \<Rightarrow> extensions" where
  "counted_extensions staged_files = foldl categorize_extension [] (map snd staged_files)"

section \<open>Properties of the primitives\<close>

lemma rfind_lower: "- 1 \<le> rfind p c"
  by (induction p) (auto simp: Let_def)

lemma rfind_upper: "rfind p c < int (length p)"
  by (induction p) (auto simp: Let_def)

lemma rfind_absent: "rfind p c < 0 \<longleftrightarrow> c \<notin> set p"
  by (induction p) (auto simp: Let_def)

lemma rfind_nth: "0 \<le> rfind p c \<Longrightarrow> p ! nat (rfind p c) = c"
  by (induction p) (auto simp: Let_def nat_add_distrib split: if_splits)

lemma rfind_last: "c \<notin> set (drop (nat (rfind p c + 1)) p)"
proof (induction p)
  case Nil
  then show ?case by simp
next
  case (Cons x xs)
  show ?case
  proof (cases "0 \<le> rfind xs c")
    case True
    then have "nat (rfind xs c + 1 + 1) = Suc (nat (rfind xs c + 1))" by simp
    with True Cons show ?thesis by (simp add: Let_def)
  next
    case False
    then have "c \<notin> set xs" using rfind_absent [of xs c] by simp
    with False show ?thesis by (auto simp: Let_def)
  qed
qed

lemma basename_drop: "basename p = drop (nat (rfind p CHR ''/'' + 1)) p"
  using rfind_lower [of p "CHR ''/''"] rfind_upper [of p "CHR ''/''"]
  by (auto simp: basename_def slice_from_def slice_bound_def Let_def min_def)

lemma basename_no_sep: "CHR ''/'' \<notin> set (basename p)"
  by (simp add: basename_drop rfind_last)

lemma basename_after_sep: "\<exists>d. p = d @ basename p \<and> (d = [] \<or> last d = CHR ''/'')"
proof (cases "0 \<le> rfind p CHR ''/''")
  case True
  let ?i = "nat (rfind p CHR ''/'')"
  have lt: "?i < length p" using rfind_upper [of p "CHR ''/''"] True by simp
  have eq: "nat (rfind p CHR ''/'' + 1) = Suc ?i" using True by simp
  have "p = take (Suc ?i) p @ basename p" by (simp add: basename_drop eq)
  moreover have "last (take (Suc ?i) p) = CHR ''/''"
    using lt rfind_nth [OF True] by (simp add: take_Suc_conv_app_nth)
  ultimately show ?thesis by blast
next
  case False
  then have "rfind p CHR ''/'' = - 1" using rfind_lower [of p "CHR ''/''"] by simp
  then have "basename p = p" by (simp add: basename_drop)
  then show ?thesis by simp
qed

lemma str_nat_nonempty: "str_nat n \<noteq> []"
  by (subst str_nat.simps) simp

lemma str_nat_0: "str_nat 0 = ''0''"
  by code_simp

lemma str_nat_1: "str_nat (Suc 0) = ''1''"
  by code_simp

section \<open>The classifier in closed form\<close>

lemma paths_with_status_Nil [simp]: "paths_with_status k [] = []"
  by (simp add: paths_with_status_def)

lemma paths_with_status_Cons [simp]:
  "paths_with_status k ((s, p) # cs) =
     (if s = k then p # paths_with_status k cs else paths_with_status k cs)"
  by (simp add: paths_with_status_def)

lemma extended_Nil [simp]: "extended c [] = c"
  by (simp add: extended_def)

lemma extended_Cons:
  "extended c (p # ps) = extended (c\<lparr>count := count c + 1, files := files c @ [p]\<rparr>) ps"
  by (simp add: extended_def)

lemma categorize_status_five:
  "categorize_status [(''A'', a), (''M'', m), (''D'', d), (''R'', r), (''C'', c)] status p =
   Inr [(''A'', if status = ''A'' then extended a [p] else a),
        (''M'', if status = ''M'' then extended m [p] else m),
        (''D'', if status = ''D'' then extended d [p] else d),
        (''R'', if status = ''R'' then extended r [p] else r),
        (''C'', if status = ''C'' then extended c [p] else c)]"
  by (auto simp: categorize_status_def dict_contains_def dict_getitem_def extended_def)

lemma categorize_loop_five:
  "categorize_loop [(''A'', a), (''M'', m), (''D'', d), (''R'', r), (''C'', c)] exts cs =
   Inr ([(''A'', extended a (paths_with_status ''A'' cs)),
         (''M'', extended m (paths_with_status ''M'' cs)),
         (''D'', extended d (paths_with_status ''D'' cs)),
         (''R'', extended r (paths_with_status ''R'' cs)),
         (''C'', extended c (paths_with_status ''C'' cs))],
        foldl categorize_extension exts (map snd cs))"
proof (induction cs arbitrary: a m d r c exts)
  case Nil
  then show ?case by simp
next
  case (Cons x cs)
  obtain s p where x: "x = (s, p)" by (cases x)
  show ?case
    unfolding x categorize_loop.simps categorize_status_five
    by (simp add: Cons.IH extended_Cons [symmetric]) (simp add: extended_def)
qed

lemma categorize_changes_closed:
  "categorize_changes cs = Inr (tallies cs, counted_extensions cs)"
  unfolding categorize_changes_def initial_categories_def categorize_loop_five
  by (simp add: tallies_def tally_def status_count_def counted_extensions_def extended_def)

lemma category_count_tallies:
  "k \<in> set [''A'', ''M'', ''D'', ''R'', ''C''] \<Longrightarrow>
     category_count (tallies cs) k = Inr (status_count k cs)"
  by (auto simp: category_count_def dict_getitem_def tallies_def tally_def)

lemma file_count_tallies:
  "file_count (tallies cs) =
     status_count ''A'' cs + status_count ''M'' cs + status_count ''D'' cs
       + status_count ''R'' cs + status_count ''C'' cs"
  by (simp add: file_count_def tallies_def tally_def)

lemma other_counts_tallies:
  "other_counts (tallies cs) ''A'' =
     status_count ''M'' cs + status_count ''D'' cs + status_count ''R'' cs + status_count ''C'' cs"
  "other_counts (tallies cs) ''M'' =
     status_count ''A'' cs + status_count ''D'' cs + status_count ''R'' cs + status_count ''C'' cs"
  "other_counts (tallies cs) ''D'' =
     status_count ''A'' cs + status_count ''M'' cs + status_count ''R'' cs + status_count ''C'' cs"
  by (simp_all add: other_counts_def tallies_def tally_def)

lemma dominates_tallies:
  "dominates (tallies cs) ''A'' =
     Inr (0 < status_count ''A'' cs \<and>
          status_count ''M'' cs + status_count ''D'' cs + status_count ''R'' cs
            + status_count ''C'' cs \<le> status_count ''A'' cs)"
  "dominates (tallies cs) ''M'' =
     Inr (0 < status_count ''M'' cs \<and>
          status_count ''A'' cs + status_count ''D'' cs + status_count ''R'' cs
            + status_count ''C'' cs \<le> status_count ''M'' cs)"
  "dominates (tallies cs) ''D'' =
     Inr (0 < status_count ''D'' cs \<and>
          status_count ''A'' cs + status_count ''M'' cs + status_count ''R'' cs
            + status_count ''C'' cs \<le> status_count ''D'' cs)"
  by (simp_all add: dominates_def category_count_tallies other_counts_tallies)

lemma primary_action_tallies:
  "primary_action (tallies cs) =
     Inr (if 0 < status_count ''A'' cs \<and>
             status_count ''M'' cs + status_count ''D'' cs + status_count ''R'' cs
               + status_count ''C'' cs \<le> status_count ''A'' cs
          then Some ''Add''
          else if 0 < status_count ''M'' cs \<and>
             status_count ''A'' cs + status_count ''D'' cs + status_count ''R'' cs
               + status_count ''C'' cs \<le> status_count ''M'' cs
          then Some ''Update''
          else if 0 < status_count ''D'' cs \<and>
             status_count ''A'' cs + status_count ''M'' cs + status_count ''R'' cs
               + status_count ''C'' cs \<le> status_count ''D'' cs
          then Some ''Remove''
          else None)"
  unfolding primary_action_def dominates_tallies by simp

section \<open>The synthesizer never raises\<close>

lemma scope_total: "\<exists>sc. scope exts = Inr sc"
  by (cases exts) (auto simp: scope_def split: prod.splits)

lemma single_file_message_total: "\<exists>r. single_file_message cs = Inr r"
  by (cases cs) (auto simp: single_file_message_def Let_def split: prod.splits)

lemma py_max_tallies: "\<exists>x. py_max f (tallies cs) = Inr x"
  by (simp add: tallies_def)

lemma analyze_changes_closed:
  "analyze_changes cs =
     (case single_file_message cs of
        Inl e \<Rightarrow> Inl e
      | Inr (Some message) \<Rightarrow> Inr message
      | Inr None \<Rightarrow> multi_file_message (tallies cs) (counted_extensions cs))"
proof -
  obtain x where "py_max (\<lambda>(s, c). count c) (tallies cs) = Inr x"
    using py_max_tallies by blast
  then show ?thesis
    by (simp add: analyze_changes_def categorize_changes_closed)
qed

lemma multi_file_message_returns:
  "\<exists>m. multi_file_message (tallies cs) exts = Inr m \<and> m \<noteq> []"
proof -
  obtain sc where sc: "scope exts = Inr sc" using scope_total by blast
  show ?thesis
    unfolding multi_file_message_def primary_action_tallies sc
    by (cases sc) auto
qed

lemma analyze_changes_returns: "\<exists>m. analyze_changes cs = Inr m \<and> m \<noteq> []"
proof -
  obtain r where r: "single_file_message cs = Inr r"
    using single_file_message_total by blast
  show ?thesis
  proof (cases r)
    case None
    with r show ?thesis
      using multi_file_message_returns [of cs "counted_extensions cs"]
      by (simp add: analyze_changes_closed)
  next
    case (Some m)
    with r have "m \<noteq> []"
      by (cases cs) (auto simp: single_file_message_def Let_def split: prod.splits if_splits)
    with r Some show ?thesis by (simp add: analyze_changes_closed)
  qed
qed

lemma status_count_unrecognized: "k \<notin> set (map fst cs) \<Longrightarrow> status_count k cs = 0"
  by (induction cs) (auto simp: status_count_def)

lemma unrecognized_multi:
  assumes "set (map fst cs) \<inter> set (map fst initial_categories) = {}"
  shows "multi_file_message (tallies cs) exts = Inr ''Update 0 files''"
proof -
  have z: "status_count ''A'' cs = 0" "status_count ''M'' cs = 0" "status_count ''D'' cs = 0"
    "status_count ''R'' cs = 0" "status_count ''C'' cs = 0"
    using assms by (auto intro!: status_count_unrecognized simp: initial_categories_def)
  obtain sc where sc: "scope exts = Inr sc" using scope_total by blast
  show ?thesis
    unfolding multi_file_message_def primary_action_tallies sc
    by (simp add: z file_count_tallies str_nat_0)
qed

lemma unrecognized_single:
  assumes "set (map fst cs) \<inter> set (map fst initial_categories) = {}"
  shows "single_file_message cs = Inr None"
  using assms
  by (cases cs) (auto simp: single_file_message_def Let_def initial_categories_def)


section \<open>The extension dictionary\<close>

lemma map_fst_dict_setitem:
  "map fst (dict_setitem d k v) = (if k \<in> fst ` set d then map fst d else map fst d @ [k])"
  by (induction d) (force split: if_splits)+

lemma dict_setitem_keys: "fst ` set (dict_setitem d k v) = insert k (fst ` set d)"
proof -
  have "set (map fst (dict_setitem d k v)) = insert k (set (map fst d))"
    unfolding map_fst_dict_setitem by auto
  then show ?thesis by simp
qed

lemma dict_setitem_distinct: "distinct (map fst d) \<Longrightarrow> distinct (map fst (dict_setitem d k v))"
  unfolding map_fst_dict_setitem by auto


lemma categorize_extension_keys:
  "fst ` set (categorize_extension d p) = fst ` set d \<union> ({file_extension p} - {[]})"
  by (auto simp: categorize_extension_def Let_def dict_setitem_keys)

lemma categorize_extension_distinct:
  "distinct (map fst d) \<Longrightarrow> distinct (map fst (categorize_extension d p))"
  by (simp add: categorize_extension_def Let_def dict_setitem_distinct)

lemma extension_loop_keys:
  "fst ` set (foldl categorize_extension d ps) = fst ` set d \<union> (file_extension ` set ps - {[]})"
  by (induction ps arbitrary: d) (auto simp: categorize_extension_keys)

lemma extension_loop_distinct:
  "distinct (map fst d) \<Longrightarrow> distinct (map fst (foldl categorize_extension d ps))"
  by (induction ps arbitrary: d) (auto simp: categorize_extension_distinct)

lemma counted_extensions_keys:
  "fst ` set (counted_extensions cs) = file_extension ` snd ` set cs - {[]}"
  by (simp add: counted_extensions_def extension_loop_keys image_image)

lemma counted_extensions_distinct: "distinct (map fst (counted_extensions cs))"
  by (simp add: counted_extensions_def extension_loop_distinct)

lemma counted_extensions_length:
  "length (counted_extensions cs) = card (file_extension ` snd ` set cs - {[]})"
proof -
  have "length (counted_extensions cs) = length (map fst (counted_extensions cs))" by simp
  also have "\<dots> = card (set (map fst (counted_extensions cs)))"
    using counted_extensions_distinct by (rule distinct_card [symmetric])
  finally show ?thesis by (simp add: counted_extensions_keys)
qed

lemma scope_counted_extensions:
  "scope (counted_extensions cs) =
     Inr (if is_singleton (file_extension ` snd ` set cs - {[]})
          then scope_of_extension (the_elem (file_extension ` snd ` set cs - {[]}))
          else None)"
proof (cases "length (counted_extensions cs) = 1")
  case True
  then obtain e n where en: "counted_extensions cs = [(e, n)]"
    by (cases "counted_extensions cs") (auto simp: length_Suc_conv)
  have "fst ` set (counted_extensions cs) = {e}" by (simp add: en)
  then have E: "file_extension ` snd ` set cs - {[]} = {e}"
    by (simp only: counted_extensions_keys)
  show ?thesis by (simp add: E) (simp add: en scope_def)
next
  case False
  then have "\<not> is_singleton (file_extension ` snd ` set cs - {[]})"
    by (simp add: is_singleton_altdef counted_extensions_length)
  with False show ?thesis by (simp add: scope_def)
qed










section \<open>The collector in closed form\<close>





lemma split_lines_nonempty: "split_lines s \<noteq> []"
  by (induction s) (auto split: list.splits)

lemma split_lines_no_newline: "l \<in> set (split_lines s) \<Longrightarrow> CHR 0x0A \<notin> set l"
  by (induction s arbitrary: l) (auto split: list.splits if_splits)





section \<open>Truncation and fallback\<close>






section \<open>Counting recognized entries\<close>

lemma recognized_total:
  "status_count ''A'' cs + status_count ''M'' cs + status_count ''D'' cs
     + status_count ''R'' cs + status_count ''C'' cs
   = length (filter (\<lambda>(s, p). s \<in> set (map fst initial_categories)) cs)"
proof (induction cs)
  case Nil
  then show ?case by (simp add: status_count_def)
next
  case (Cons x cs)
  obtain s p where x: "x = (s, p)" by (cases x)
  show ?case
  proof (cases "s \<in> set (map fst initial_categories)")
    case True
    then have "s = ''A'' \<or> s = ''M'' \<or> s = ''D'' \<or> s = ''R'' \<or> s = ''C''"
      by (simp add: initial_categories_def)
    with True Cons show ?thesis
      unfolding x status_count_def by (elim disjE) simp_all
  next
    case False
    then have "s \<noteq> ''A''" "s \<noteq> ''M''" "s \<noteq> ''D''" "s \<noteq> ''R''" "s \<noteq> ''C''"
      by (simp_all add: initial_categories_def)
    with False Cons show ?thesis
      unfolding x status_count_def by simp
  qed
qed

lemma tallies_skip_unrecognized:
  assumes "status \<notin> set (map fst initial_categories)"
  shows "tallies (before @ (status, file_path) # after) = tallies (before @ after)"
  using assms
  by (auto simp: tallies_def tally_def status_count_def paths_with_status_def initial_categories_def)

section \<open>Where the returned message comes from\<close>


section \<open>Claims\<close>




text \<open>
  C2. A ChangeSet of exactly one entry with status \<open>A\<close>, \<open>M\<close>, \<open>D\<close> or \<open>R\<close> gives
  \<open>Add\<close>, \<open>Update\<close>, \<open>Delete\<close> or \<open>Rename file to\<close> followed by the base name of the path:
  what follows the last \<open>/\<close>, so it contains no \<open>/\<close> and the path is a directory part
  ending in \<open>/\<close> (or nothing) followed by it. A single added \<open>a/b/foo.py\<close> gives
  \<open>Add foo.py\<close>. A single entry with any other status is answered by the multi-file part
  on the classifier's result; for \<open>C\<close> that is \<open>Update 1 files\<close>.
\<close>

theorem single_file_shortcut:
  "analyze_changes [(''A'', p)] = Inr (''Add '' @ basename p)
   \<and> analyze_changes [(''M'', p)] = Inr (''Update '' @ basename p)
   \<and> analyze_changes [(''D'', p)] = Inr (''Delete '' @ basename p)
   \<and> analyze_changes [(''R'', p)] = Inr (''Rename file to '' @ basename p)
   \<and> CHR ''/'' \<notin> set (basename p)
   \<and> (\<exists>d. p = d @ basename p \<and> (d = [] \<or> last d = CHR ''/''))
   \<and> analyze_changes [(''A'', ''a/b/foo.py'')] = Inr ''Add foo.py''
   \<and> (status \<notin> set [''A'', ''M'', ''D'', ''R''] \<longrightarrow>
        (\<exists>cats exts. categorize_changes [(status, p)] = Inr (cats, exts)
           \<and> analyze_changes [(status, p)] = multi_file_message cats exts))
   \<and> analyze_changes [(''C'', p)] = Inr ''Update 1 files''"
proof -
  have templates:
    "analyze_changes [(''A'', p)] = Inr (''Add '' @ basename p)"
    "analyze_changes [(''M'', p)] = Inr (''Update '' @ basename p)"
    "analyze_changes [(''D'', p)] = Inr (''Delete '' @ basename p)"
    "analyze_changes [(''R'', p)] = Inr (''Rename file to '' @ basename p)"
    by (simp_all add: analyze_changes_closed single_file_message_def)
  have example: "analyze_changes [(''A'', ''a/b/foo.py'')] = Inr ''Add foo.py''"
    by code_simp
  have other: "status \<notin> set [''A'', ''M'', ''D'', ''R''] \<longrightarrow>
        (\<exists>cats exts. categorize_changes [(status, p)] = Inr (cats, exts)
           \<and> analyze_changes [(status, p)] = multi_file_message cats exts)"
    by (simp add: analyze_changes_closed categorize_changes_closed single_file_message_def)
  have copied: "analyze_changes [(''C'', p)] = Inr ''Update 1 files''"
  proof -
    obtain sc where sc: "scope (counted_extensions [(''C'', p)]) = Inr sc"
      using scope_total by blast
    show ?thesis
      by (simp add: analyze_changes_closed single_file_message_def multi_file_message_def
          primary_action_tallies sc file_count_tallies status_count_def str_nat_1)
  qed
  show ?thesis
    using templates example other copied basename_no_sep [of p] basename_after_sep [of p]
    by blast
qed

theorem single_file_shortcut_witness:
  "analyze_changes [(''M'', ''src/util/io.c'')] = Inr ''Update io.c''
   \<and> analyze_changes [(''R'', ''src/util/io.c'')] = Inr ''Rename file to io.c''
   \<and> (\<exists>cats exts. categorize_changes [(''T'', ''src/util/io.c'')] = Inr (cats, exts)
         \<and> analyze_changes [(''T'', ''src/util/io.c'')] = multi_file_message cats exts)"
proof -
  have b: "basename ''src/util/io.c'' = ''io.c''" by code_simp
  have h: "''T'' \<notin> set [''A'', ''M'', ''D'', ''R'']" by simp
  show ?thesis
    using single_file_shortcut [of "''src/util/io.c''" "''T''"] b h by simp
qed

text \<open>
  C3, as amended. On the multi-file path the primary action is found by testing, in the
  order \<open>Add\<close> (for \<open>A\<close>), \<open>Update\<close> (for \<open>M\<close>), \<open>Remove\<close> (for \<open>D\<close>), whether the count of
  that status is positive and at least the sum of the counts of the other four recognized
  statuses; the first that passes wins and there is no primary action when none passes.
  Entries with an unrecognized status are in no count, and the total in the message is
  the sum of the five recognized counts. Four modified files and one added file with
  mixed extensions give \<open>Update 5 files\<close>.
\<close>

theorem primary_action_rule:
  assumes "categorize_changes cs = Inr (cats, exts)"
  shows "primary_action cats =
     Inr (if 0 < status_count ''A'' cs \<and>
             status_count ''M'' cs + status_count ''D'' cs + status_count ''R'' cs
               + status_count ''C'' cs \<le> status_count ''A'' cs
          then Some ''Add''
          else if 0 < status_count ''M'' cs \<and>
             status_count ''A'' cs + status_count ''D'' cs + status_count ''R'' cs
               + status_count ''C'' cs \<le> status_count ''M'' cs
          then Some ''Update''
          else if 0 < status_count ''D'' cs \<and>
             status_count ''A'' cs + status_count ''M'' cs + status_count ''R'' cs
               + status_count ''C'' cs \<le> status_count ''D'' cs
          then Some ''Remove''
          else None)
     \<and> file_count cats =
         status_count ''A'' cs + status_count ''M'' cs + status_count ''D'' cs
           + status_count ''R'' cs + status_count ''C'' cs
     \<and> analyze_changes
          [(''M'', ''a.py''), (''M'', ''src/b.js''), (''M'', ''c.md''), (''M'', ''d.txt''),
           (''A'', ''e.css'')] = Inr ''Update 5 files''"
proof -
  have cats: "cats = tallies cs" using assms by (simp add: categorize_changes_closed)
  have example: "analyze_changes
          [(''M'', ''a.py''), (''M'', ''src/b.js''), (''M'', ''c.md''), (''M'', ''d.txt''),
           (''A'', ''e.css'')] = Inr ''Update 5 files''"
    by code_simp
  show ?thesis
    unfolding cats primary_action_tallies file_count_tallies using example by simp
qed

theorem primary_action_rule_witness:
  "categorize_changes [(''M'', ''a.py''), (''A'', ''b.js'')] =
     Inr ([(''A'', \<lparr>count = 1, files = [''b.js'']\<rparr>),
           (''M'', \<lparr>count = 1, files = [''a.py'']\<rparr>),
           (''D'', \<lparr>count = 0, files = []\<rparr>),
           (''R'', \<lparr>count = 0, files = []\<rparr>),
           (''C'', \<lparr>count = 0, files = []\<rparr>)],
          [(''py'', 1), (''js'', 1)])
   \<and> primary_action
        [(''A'', \<lparr>count = 1, files = [''b.js'']\<rparr>),
         (''M'', \<lparr>count = 1, files = [''a.py'']\<rparr>),
         (''D'', \<lparr>count = 0, files = []\<rparr>),
         (''R'', \<lparr>count = 0, files = []\<rparr>),
         (''C'', \<lparr>count = 0, files = []\<rparr>)] = Inr (Some ''Add'')"
proof -
  have h: "categorize_changes [(''M'', ''a.py''), (''A'', ''b.js'')] =
     Inr ([(''A'', \<lparr>count = 1, files = [''b.js'']\<rparr>),
           (''M'', \<lparr>count = 1, files = [''a.py'']\<rparr>),
           (''D'', \<lparr>count = 0, files = []\<rparr>),
           (''R'', \<lparr>count = 0, files = []\<rparr>),
           (''C'', \<lparr>count = 0, files = []\<rparr>)],
          [(''py'', 1), (''js'', 1)])"
    by code_simp
  show ?thesis
    using h primary_action_rule [OF h] by (simp add: status_count_def)
qed

text \<open>
  C3, as stated, fails: the claim's test has no condition that the count is positive. For the
  ChangeSet of the single entry \<open>(T, x)\<close> the count of \<open>A\<close> is zero and so is the sum of the
  others, so the stated test would choose \<open>Add\<close>, but no primary action is chosen and the
  message is \<open>Update 0 files\<close>. If the stated test is read as counting every status, the
  unrecognized ones too, it fails for one added file and two entries of status \<open>T\<close>:
  one is less than two, yet \<open>Add\<close> is chosen.
\<close>

theorem primary_action_counterexample:
  "categorize_changes [(''T'', ''x'')] = Inr (initial_categories, [])
   \<and> category_count initial_categories ''A'' = Inr 0
   \<and> other_counts initial_categories ''A'' = 0
   \<and> primary_action initial_categories = Inr None
   \<and> analyze_changes [(''T'', ''x'')] = Inr ''Update 0 files''
   \<and> analyze_changes [(''A'', ''a''), (''T'', ''b''), (''T'', ''c'')] = Inr ''Add 1 files''"
  by code_simp

text \<open>
  C4. \<open>analyze_changes\<close> is a function of the ChangeSet alone (the model has no other
  input, so equal ChangeSets give equal results), and for every non-empty ChangeSet,
  whatever its statuses and paths, no lookup, index or iterator of the source raises:
  the result is a message, and the message is not empty.
\<close>

theorem analyze_changes_total:
  assumes "cs \<noteq> []"
  shows "\<exists>m. analyze_changes cs = Inr m \<and> m \<noteq> []"
  using analyze_changes_returns by blast

theorem analyze_changes_total_witness:
  "[(''R'', ''old name.txt''), (''X'', ''..'')] \<noteq> []
   \<and> (\<exists>m. analyze_changes [(''R'', ''old name.txt''), (''X'', ''..'')] = Inr m \<and> m \<noteq> [])"
proof -
  have h: "[(''R'', ''old name.txt''), (''X'', ''..'')] \<noteq> []" by simp
  show ?thesis
    using h analyze_changes_total [OF h] by blast
qed





text \<open>
  C7, as amended. An entry whose status is not one of the five recognized letters is
  neither tallied in the status counts nor added to a per-status file list: the categories
  are those of the ChangeSet without the entry, and the total file count used in the
  message is the number of entries with a recognized status.
\<close>

theorem unrecognized_status_ignored:
  assumes "status \<notin> set (map fst initial_categories)"
  shows "\<exists>cats exts exts'.
      categorize_changes (before @ (status, file_path) # after) = Inr (cats, exts)
    \<and> categorize_changes (before @ after) = Inr (cats, exts')
    \<and> file_count cats =
        length (filter (\<lambda>(s, p). s \<in> set (map fst initial_categories)) (before @ after))"
  using tallies_skip_unrecognized [OF assms, of before file_path after]
  by (simp add: categorize_changes_closed file_count_tallies recognized_total)

theorem unrecognized_status_ignored_witness:
  "''T'' \<notin> set (map fst initial_categories)
   \<and> (\<exists>cats exts exts'.
      categorize_changes ([(''M'', ''a.py'')] @ (''T'', ''b.js'') # []) = Inr (cats, exts)
    \<and> categorize_changes ([(''M'', ''a.py'')] @ []) = Inr (cats, exts')
    \<and> file_count cats =
        length (filter (\<lambda>(s, p). s \<in> set (map fst initial_categories)) ([(''M'', ''a.py'')] @ [])))"
proof -
  have h: "''T'' \<notin> set (map fst initial_categories)" by (simp add: initial_categories_def)
  show ?thesis
    using h unrecognized_status_ignored [OF h, of "[(''M'', ''a.py'')]" "''b.js''" "[]"] by blast
qed

text \<open>
  C7, as stated, fails: for one modified file and one entry of status \<open>T\<close> every count but
  that of \<open>M\<close> is zero, the total is 1 for a ChangeSet of 2 entries, and the message is
  \<open>Update 1 files\<close>.
\<close>

theorem unrecognized_status_counterexample:
  "categorize_changes [(''M'', ''a.py''), (''T'', ''b.js'')] =
     Inr ([(''A'', \<lparr>count = 0, files = []\<rparr>),
           (''M'', \<lparr>count = 1, files = [''a.py'']\<rparr>),
           (''D'', \<lparr>count = 0, files = []\<rparr>),
           (''R'', \<lparr>count = 0, files = []\<rparr>),
           (''C'', \<lparr>count = 0, files = []\<rparr>)],
          [(''py'', 1), (''js'', 1)])
   \<and> file_count
        [(''A'', \<lparr>count = 0, files = []\<rparr>),
         (''M'', \<lparr>count = 1, files = [''a.py'']\<rparr>),
         (''D'', \<lparr>count = 0, files = []\<rparr>),
         (''R'', \<lparr>count = 0, files = []\<rparr>),
         (''C'', \<lparr>count = 0, files = []\<rparr>)] = 1
   \<and> length [(''M'', ''a.py''), (''T'', ''b.js'')] = 2
   \<and> analyze_changes [(''M'', ''a.py''), (''T'', ''b.js'')] = Inr ''Update 1 files''"
  by code_simp




text \<open>
  C9, as amended. On the multi-file path the scope is present exactly when the paths of
  all entries of the ChangeSet, whatever their status, carry exactly one distinct
  non-empty extension and that extension is a key of the table js/ts to JavaScript, py to
  Python, css/scss to styles, html to HTML, md/txt to documentation, json/yaml/yml/toml
  to configuration; it is then the table's value, and absent otherwise. Three added
  \<open>.py\<close> files give \<open>Add Python files\<close>.
\<close>

theorem scope_rule:
  assumes "categorize_changes cs = Inr (cats, exts)"
  shows "scope exts =
     Inr (if is_singleton (file_extension ` snd ` set cs - {[]})
          then scope_of_extension (the_elem (file_extension ` snd ` set cs - {[]}))
          else None)
   \<and> map scope_of_extension
        [''js'', ''ts'', ''py'', ''css'', ''scss'', ''html'', ''md'', ''txt'',
         ''json'', ''yaml'', ''yml'', ''toml'']
      = map Some
        [''JavaScript'', ''JavaScript'', ''Python'', ''styles'', ''styles'', ''HTML'',
         ''documentation'', ''documentation'', ''configuration'', ''configuration'',
         ''configuration'', ''configuration'']
   \<and> (e \<notin> set [''js'', ''ts'', ''py'', ''css'', ''scss'', ''html'', ''md'', ''txt'',
         ''json'', ''yaml'', ''yml'', ''toml''] \<longrightarrow> scope_of_extension e = None)
   \<and> analyze_changes [(''A'', ''a.py''), (''A'', ''lib/b.py''), (''A'', ''c.py'')]
        = Inr ''Add Python files''"
proof -
  have exts: "exts = counted_extensions cs" using assms by (simp add: categorize_changes_closed)
  have table: "map scope_of_extension
        [''js'', ''ts'', ''py'', ''css'', ''scss'', ''html'', ''md'', ''txt'',
         ''json'', ''yaml'', ''yml'', ''toml'']
      = map Some
        [''JavaScript'', ''JavaScript'', ''Python'', ''styles'', ''styles'', ''HTML'',
         ''documentation'', ''documentation'', ''configuration'', ''configuration'',
         ''configuration'', ''configuration'']"
    by code_simp
  have miss: "e \<notin> set [''js'', ''ts'', ''py'', ''css'', ''scss'', ''html'', ''md'', ''txt'',
         ''json'', ''yaml'', ''yml'', ''toml''] \<longrightarrow> scope_of_extension e = None"
    by (simp add: scope_of_extension_def)
  have example: "analyze_changes [(''A'', ''a.py''), (''A'', ''lib/b.py''), (''A'', ''c.py'')]
        = Inr ''Add Python files''"
    by code_simp
  show ?thesis
    unfolding exts scope_counted_extensions using table miss example by blast
qed

theorem scope_rule_witness:
  "categorize_changes [(''M'', ''a.md''), (''X'', ''LICENSE''), (''D'', ''doc/b.md'')] =
     Inr ([(''A'', \<lparr>count = 0, files = []\<rparr>),
           (''M'', \<lparr>count = 1, files = [''a.md'']\<rparr>),
           (''D'', \<lparr>count = 1, files = [''doc/b.md'']\<rparr>),
           (''R'', \<lparr>count = 0, files = []\<rparr>),
           (''C'', \<lparr>count = 0, files = []\<rparr>)],
          [(''md'', 2)])
   \<and> scope [(''md'', 2)] = Inr (Some ''documentation'')
   \<and> scope_of_extension ''rs'' = None"
proof -
  have h: "categorize_changes [(''M'', ''a.md''), (''X'', ''LICENSE''), (''D'', ''doc/b.md'')] =
     Inr ([(''A'', \<lparr>count = 0, files = []\<rparr>),
           (''M'', \<lparr>count = 1, files = [''a.md'']\<rparr>),
           (''D'', \<lparr>count = 1, files = [''doc/b.md'']\<rparr>),
           (''R'', \<lparr>count = 0, files = []\<rparr>),
           (''C'', \<lparr>count = 0, files = []\<rparr>)],
          [(''md'', 2)])"
    by code_simp
  have E: "file_extension ` snd ` set [(''M'', ''a.md''), (''X'', ''LICENSE''), (''D'', ''doc/b.md'')] - {[]}
      = {''md''}"
    by code_simp
  have m: "scope_of_extension ''md'' = Some ''documentation''" by code_simp
  have r: "''rs'' \<notin> set [''js'', ''ts'', ''py'', ''css'', ''scss'', ''html'', ''md'', ''txt'',
         ''json'', ''yaml'', ''yml'', ''toml'']" by simp
  show ?thesis
    using h scope_rule [OF h, of "''rs''"] r unfolding E by (simp add: m)
qed

text \<open>
  C9, as stated, fails twice: two added \<open>.rs\<close> files carry a single extension and have
  no scope; and for an added \<open>a.py\<close> with an entry \<open>b.js\<close> of status \<open>T\<close> the only extension
  among the files under a recognized status is \<open>py\<close>, yet two extensions are counted and
  there is no scope.
\<close>

theorem scope_counterexample:
  "categorize_changes [(''A'', ''a.rs''), (''A'', ''b.rs'')] =
     Inr ([(''A'', \<lparr>count = 2, files = [''a.rs'', ''b.rs'']\<rparr>),
           (''M'', \<lparr>count = 0, files = []\<rparr>),
           (''D'', \<lparr>count = 0, files = []\<rparr>),
           (''R'', \<lparr>count = 0, files = []\<rparr>),
           (''C'', \<lparr>count = 0, files = []\<rparr>)],
          [(''rs'', 2)])
   \<and> scope [(''rs'', 2)] = Inr None
   \<and> analyze_changes [(''A'', ''a.rs''), (''A'', ''b.rs'')] = Inr ''Add 2 files''
   \<and> categorize_changes [(''A'', ''a.py''), (''T'', ''b.js'')] =
     Inr ([(''A'', \<lparr>count = 1, files = [''a.py'']\<rparr>),
           (''M'', \<lparr>count = 0, files = []\<rparr>),
           (''D'', \<lparr>count = 0, files = []\<rparr>),
           (''R'', \<lparr>count = 0, files = []\<rparr>),
           (''C'', \<lparr>count = 0, files = []\<rparr>)],
          [(''py'', 1), (''js'', 1)])
   \<and> scope [(''py'', 1), (''js'', 1)] = Inr None
   \<and> analyze_changes [(''A'', ''a.py''), (''T'', ''b.js'')] = Inr ''Add 1 files''"
  by code_simp

text \<open>
  C10. For every non-empty ChangeSet in which no entry carries one of the five recognized
  status letters (the keys of \<open>initial_categories\<close>), \<open>analyze_changes\<close> returns exactly
  \<open>Update 0 files\<close>: a single entry falls through the single-file shortcut, every
  recognized count is zero, no primary action is chosen, and the count in the fallback
  message sums the recognized buckets only.
\<close>

theorem only_unrecognized_statuses:
  assumes "cs \<noteq> []"
    and "set (map fst cs) \<inter> set (map fst initial_categories) = {}"
  shows "analyze_changes cs = Inr ''Update 0 files''"
  using assms(2)
  by (simp add: analyze_changes_closed unrecognized_single unrecognized_multi)

theorem only_unrecognized_statuses_witness:
  "[(''T'', ''a.py'')] \<noteq> []
   \<and> set (map fst [(''T'', ''a.py'')]) \<inter> set (map fst initial_categories) = {}
   \<and> analyze_changes [(''T'', ''a.py'')] = Inr ''Update 0 files''"
proof -
  have h1: "[(''T'', ''a.py'')] \<noteq> []" by simp
  have h2: "set (map fst [(''T'', ''a.py'')]) \<inter> set (map fst initial_categories) = {}"
    by (simp add: initial_categories_def)
  show ?thesis
    using h1 h2 only_unrecognized_statuses [OF h1 h2] by blast
qed

end
